theory Spec2Isabelle
  imports Complex_Main "HOL-Library.Sublist" "HOL-Library.Log_Nat"
begin

section \<open>The USDA calorie service of the meal-calorie backend\<close>

text \<open>
  The development embeds the class \<open>USDAService\<close> of the backend: the cached search
  against the USDA FoodData Central API (\<open>searchFoods\<close>), the fuzzy matcher
  (\<open>findBestMatch\<close>), the energy extractor (\<open>extractCalories\<close>) and the orchestrating
  \<open>getCalories\<close>.

  A JavaScript number is an IEEE 754 binary64 value. A finite number is represented by
  its exact rational value (\<open>rat\<close>); the numbers read from JSON and the servings are
  finite. The one arithmetic operation of the service whose result is rounded, the
  multiplication in \<open>getCalories\<close>, is modelled with the rounding to the nearest
  binary64 value and with overflow to an infinity. Negative zero is identified with zero
  (both are printed as 0 in the JSON response). Strings are lists of 8-bit characters, and
  the case mapping and the whitespace class are the ASCII ones. Logging to the console is
  left out.
\<close>

subsection \<open>Data received from the nutrition database\<close>

text \<open>
  One element of \<open>food.foodNutrients\<close>. The name and the value may be missing in the
  JSON object (\<open>None\<close>).
\<close>

record nutrient =
  nutrientId :: int
  nutrientName :: "string option"
  nutrient_value :: "rat option"

text \<open>
  One element of \<open>response.data.foods\<close>. \<open>foodNutrients\<close> is \<open>None\<close> when the
  property is missing or is not an array.
\<close>

record food =
  fdcId :: int
  description :: string
  brandName :: "string option"
  ingredients :: "string option"
  foodNutrients :: "nutrient list option"

subsection \<open>Errors\<close>

text \<open>
  The service throws plain \<open>Error\<close> objects, which differ only in their message. The
  constructors name the six failures; \<open>message\<close> is the text given to \<open>new Error\<close>.
\<close>

datatype error =
    RateLimited
  | Unauthorized
  | Transient
  | NotFound string
  | NoMatch string
  | CaloriesUnavailable string

fun message :: "error \<Rightarrow> string" where
  "message RateLimited = ''USDA API rate limit exceeded. Please try again later.''"
| "message Unauthorized = ''Invalid USDA API key or access denied.''"
| "message Transient = ''Failed to fetch food data from USDA API''"
| \<open>message (NotFound dishName) = ''No nutrition data found for "'' @ dishName @ ''"''\<close>
| \<open>message (NoMatch dishName) = ''Could not find a suitable match for "'' @ dishName @ ''"''\<close>
| \<open>message (CaloriesUnavailable dishName) =
     ''Calorie information not available for "'' @ dishName @ ''"''\<close>

subsection \<open>String primitives of the host language\<close>

definition lower_char :: "char \<Rightarrow> char" where
  "lower_char c =
     (case map_of (zip ''ABCDEFGHIJKLMNOPQRSTUVWXYZ'' ''abcdefghijklmnopqrstuvwxyz'') c of
        Some d \<Rightarrow> d
      | None \<Rightarrow> c)"

definition toLowerCase :: "string \<Rightarrow> string" where
  "toLowerCase s = map lower_char s"

text \<open>\<open>s.includes(sub)\<close>: \<open>sub\<close> occurs in \<open>s\<close> as a contiguous substring.\<close>

fun str_includes :: "string \<Rightarrow> string \<Rightarrow> bool" where
  "str_includes [] sub = (sub = [])"
| "str_includes (c # cs) sub = (prefix sub (c # cs) \<or> str_includes cs sub)"

definition is_ws :: "char \<Rightarrow> bool" where
  "is_ws c = (c \<in> set [CHR 0x20, CHR 0x09, CHR 0x0A, CHR 0x0B, CHR 0x0C, CHR 0x0D])"

text \<open>\<open>s.trim()\<close>: leading and trailing whitespace removed.\<close>

definition trim :: "string \<Rightarrow> string" where
  "trim s = rev (dropWhile is_ws (rev (dropWhile is_ws s)))"

text \<open>
  The text a template literal inserts for an integer: decimal digits, with a minus sign
  for a negative number.
\<close>

definition digit_char :: "nat \<Rightarrow> char" where
  "digit_char d = ''0123456789'' ! d"

fun digits_of :: "nat \<Rightarrow> string" where
  "digits_of n =
     (if n < 10 then [digit_char n] else digits_of (n div 10) @ [digit_char (n mod 10)])"

declare digits_of.simps [simp del]

definition toString :: "int \<Rightarrow> string" where
  "toString i = (if i < 0 then CHR ''-'' # digits_of (nat (- i)) else digits_of (nat i))"

text \<open>
  Reading decimal digits back, used only to show that \<open>toString\<close> is injective.
\<close>

definition digit_val :: "char \<Rightarrow> nat" where
  "digit_val c = length (takeWhile (\<lambda>x. x \<noteq> c) ''0123456789'')"

definition decode :: "string \<Rightarrow> nat" where
  "decode cs = foldl (\<lambda>a c. 10 * a + digit_val c) 0 cs"

subsection \<open>Numbers\<close>

text \<open>
  The result of an arithmetic operation on finite numbers: a finite binary64 value or an
  infinity (a product of finite numbers is never NaN).
\<close>

datatype number = Finite rat | PosInfinity | NegInfinity

text \<open>The exponent \<open>e\<close> with \<open>2\<^sup>e \<le> x < 2\<^sup>e\<^sup>+\<^sup>1\<close>, for a positive \<open>x\<close>.\<close>

definition ilog2 :: "rat \<Rightarrow> int" where
  "ilog2 x = (if 1 \<le> x then bitlen \<lfloor>x\<rfloor> - 1 else - bitlen (\<lceil>1 / x\<rceil> - 1))"

text \<open>The nearest integer, a tie going to the even one.\<close>

definition round_half_even :: "rat \<Rightarrow> int" where
  "round_half_even x =
     (let f = \<lfloor>x\<rfloor>; r = x - of_int f
      in if r < 1 / 2 then f else if 1 / 2 < r then f + 1 else if even f then f else f + 1)"

text \<open>
  Rounding of a real value to binary64, to nearest with ties to even: the value is
  rounded to a multiple of \<open>2\<^sup>q\<close>, where \<open>q\<close> leaves 53 significant bits to a normal
  number and is \<open>-1074\<close> for a subnormal one; a result of magnitude \<open>2\<^sup>1\<^sup>0\<^sup>2\<^sup>4\<close> or more
  is an infinity.
\<close>

definition fl :: "rat \<Rightarrow> number" where
  "fl x =
     (if x = 0 then Finite 0
      else
        (let a = \<bar>x\<bar>;
             q = max (ilog2 a) (- 1022) - 52;
             y = of_int (round_half_even (a / 2 powi q)) * 2 powi q
         in if 2 powi 1024 \<le> y then (if x < 0 then NegInfinity else PosInfinity)
            else Finite (if x < 0 then - y else y)))"

text \<open>The product \<open>a * b\<close> of two finite numbers.\<close>

definition js_times :: "rat \<Rightarrow> rat \<Rightarrow> number" where
  "js_times a b = fl (a * b)"

text \<open>
  \<open>Math.round\<close>: the nearest integer, a tie going towards plus infinity. The result
  is determined exactly and is again a binary64 value. \<open>Math_round\<close> is the function on
  finite numbers; \<open>Math_round_number\<close> extends it to a product, where an infinity is
  returned unchanged.
\<close>

definition Math_round :: "rat \<Rightarrow> int" where
  "Math_round x = \<lfloor>x + 1 / 2\<rfloor>"

fun Math_round_number :: "number \<Rightarrow> number" where
  "Math_round_number (Finite x) = Finite (of_int (Math_round x))"
| "Math_round_number PosInfinity = PosInfinity"
| "Math_round_number NegInfinity = NegInfinity"

text \<open>
  \<open>parseFloat\<close> applied to a number converts it to text and parses it back, which
  yields the same number.
\<close>

definition parseFloat :: "rat \<Rightarrow> rat" where
  "parseFloat v = v"

subsection \<open>The result cache\<close>

text \<open>
  \<open>const cache = new NodeCache({ stdTTL: 3600 })\<close>. The package is an external
  dependency; its store is modelled as a map from keys to the stored value and the time
  of insertion, in seconds. \<open>get\<close> misses when the key is absent or when more than
  \<open>stdTTL\<close> seconds have passed since the insertion; \<open>set\<close> replaces the entry.
\<close>

record cache_entry =
  ce_value :: "food list"
  ce_insertedAt :: nat

type_synonym node_cache = "string \<rightharpoonup> cache_entry"

definition stdTTL :: nat where
  "stdTTL = 3600"

definition cache_get :: "node_cache \<Rightarrow> nat \<Rightarrow> string \<Rightarrow> food list option" where
  "cache_get c now k =
     (case c k of
        None \<Rightarrow> None
      | Some e \<Rightarrow> if now - ce_insertedAt e > stdTTL then None else Some (ce_value e))"

definition cache_set :: "node_cache \<Rightarrow> nat \<Rightarrow> string \<Rightarrow> food list \<Rightarrow> node_cache" where
  "cache_set c now k v = c(k \<mapsto> \<lparr>ce_value = v, ce_insertedAt = now\<rparr>)"

subsection \<open>The HTTP client\<close>

text \<open>
  What \<open>axios.get\<close> is called with, and what awaiting it gives. The promise is rejected
  (\<open>Rejected st\<close>, where \<open>st\<close> is \<open>error.response?.status\<close>, \<open>None\<close> when there is no
  response at all, as for a network failure or a timeout; axios rejects every response
  whose status is not 2xx), or it resolves with a response whose \<open>data\<close> is
  \<^item> null or undefined (\<open>NoData\<close>: reading \<open>data.foods\<close> throws a TypeError), or
  \<^item> the text of a body that is not JSON (\<open>RawText\<close>: axios leaves a body it cannot
    parse as the string it is, and a string has no property \<open>foods\<close>), or
  \<^item> a JSON value whose property \<open>foods\<close> is missing or falsy (\<open>Data None\<close>) or is a
    list of foods (\<open>Data (Some fs)\<close>).
  The client is a parameter of the model: a function of the time of the call and the
  request.
\<close>

record request =
  url :: string
  param_query :: string
  param_api_key :: string
  param_pageSize :: int
  timeout_ms :: nat

datatype response_data = NoData | RawText string | Data "food list option"

datatype axios_result = Rejected "nat option" | Resolved response_data

type_synonym axios = "nat \<Rightarrow> request \<Rightarrow> axios_result"

subsection \<open>The service\<close>

record service =
  apiKey :: string
  baseURL :: string

text \<open>
  The state that \<open>searchFoods\<close> reads and writes: the module-level cache, and the log of
  the requests handed to \<open>axios.get\<close> so far (the log is an observation of the model, it
  is never read by the program).
\<close>

record state =
  cache :: node_cache
  requests :: "request list"

definition cacheKey :: "string \<Rightarrow> int \<Rightarrow> string" where
  "cacheKey query pageSize = ''search_'' @ query @ ''_'' @ toString pageSize"

definition search_request :: "service \<Rightarrow> string \<Rightarrow> int \<Rightarrow> request" where
  "search_request svc query pageSize =
     \<lparr>url = baseURL svc @ ''/foods/search'',
      param_query = trim query,
      param_api_key = apiKey svc,
      param_pageSize = pageSize,
      timeout_ms = 10000\<rparr>"

text \<open>
  \<open>response.data.foods || []\<close>: \<open>None\<close> when reading the property throws.
\<close>

fun response_foods :: "response_data \<Rightarrow> food list option" where
  "response_foods NoData = None"
| "response_foods (RawText body) = Some []"
| "response_foods (Data None) = Some []"
| "response_foods (Data (Some fs)) = Some fs"

text \<open>
  \<open>searchFoods(query, pageSize)\<close> called at time \<open>now\<close>. Every exception of the
  \<open>try\<close> block reaches the \<open>catch\<close> block, which throws one of three errors.
\<close>

definition searchFoods ::
  "axios \<Rightarrow> service \<Rightarrow> nat \<Rightarrow> string \<Rightarrow> int \<Rightarrow> state \<Rightarrow> (error + food list) \<times> state" where
  "searchFoods ax svc now query pageSize s =
     (case cache_get (cache s) now (cacheKey query pageSize) of
        Some cachedResult \<Rightarrow> (Inr cachedResult, s)
      | None \<Rightarrow>
          (let req = search_request svc query pageSize;
               s1 = s\<lparr>requests := requests s @ [req]\<rparr>
           in case ax now req of
                Rejected status \<Rightarrow>
                  (if status = Some 429 then (Inl RateLimited, s1)
                   else if status = Some 403 then (Inl Unauthorized, s1)
                   else (Inl Transient, s1))
              | Resolved response_data \<Rightarrow>
                  (case response_foods response_data of
                     None \<Rightarrow> (Inl Transient, s1)
                   | Some foods \<Rightarrow>
                       (Inr foods,
                        s1\<lparr>cache := cache_set (cache s1) now (cacheKey query pageSize) foods\<rparr>))))"

text \<open>
  \<open>new Fuse(foods, fuseOptions).search(query)\<close>, read through \<open>.item\<close>: the foods that
  clear the threshold 0.6, best score first. Fuse.js is an external package and a
  parameter of the model.
\<close>

type_synonym fuse = "food list \<Rightarrow> string \<Rightarrow> food list"

definition findBestMatch :: "fuse \<Rightarrow> food list \<Rightarrow> string \<Rightarrow> food option" where
  "findBestMatch fz foods query =
     (if length foods = 0 then None
      else if length foods = 1 then Some (foods ! 0)
      else (let results = fz foods query
            in if length results > 0 then Some (results ! 0) else Some (foods ! 0)))"

definition is_energy :: "nutrient \<Rightarrow> bool" where
  "is_energy n =
     (nutrientId n = 1008 \<or>
      (case nutrientName n of
         None \<Rightarrow> False
       | Some nm \<Rightarrow> nm \<noteq> [] \<and> str_includes (toLowerCase nm) ''energy''))"

text \<open>
  \<open>extractCalories(food)\<close>. The body is wrapped in a \<open>try\<close> whose \<open>catch\<close> returns
  null, so the function has no failing branch. The test \<open>energyNutrient.value\<close> is a
  truthiness test: a missing value and the number 0 both fail it.
\<close>

definition extractCalories :: "food \<Rightarrow> rat option" where
  "extractCalories fd =
     (case foodNutrients fd of
        None \<Rightarrow> None
      | Some ns \<Rightarrow>
          (case find is_energy ns of
             None \<Rightarrow> None
           | Some energyNutrient \<Rightarrow>
               (case nutrient_value energyNutrient of
                  None \<Rightarrow> None
                | Some v \<Rightarrow> if v = 0 then None else Some (parseFloat v))))"

text \<open>
  The two lines of \<open>getCalories\<close> that compute the per-serving and the total value (the
  calculator \<open>compute\<close> of the specification).
\<close>

definition compute :: "rat \<Rightarrow> rat \<Rightarrow> int \<times> number" where
  "compute caloriesPer100g nservings =
     (let caloriesPerServing = Math_round caloriesPer100g;
          totalCalories = Math_round_number (js_times (of_int caloriesPerServing) nservings)
      in (caloriesPerServing, totalCalories))"

record calorie_result =
  dish_name :: string
  servings :: rat
  calories_per_serving :: int
  total_calories :: number
  source :: string
  matched_food :: string
  food_id :: int

text \<open>
  \<open>getCalories(dishName, servings)\<close> called at time \<open>now\<close>; \<open>searchFoods\<close> is called
  with its default page size 25. The \<open>catch\<close> block rethrows the error it caught.
\<close>

definition getCalories ::
  "axios \<Rightarrow> fuse \<Rightarrow> service \<Rightarrow> nat \<Rightarrow> string \<Rightarrow> rat \<Rightarrow> state \<Rightarrow> (error + calorie_result) \<times> state"
  where
  "getCalories ax fz svc now dishName nservings s =
     (case searchFoods ax svc now dishName 25 s of
        (Inl e, s') \<Rightarrow> (Inl e, s')
      | (Inr foods, s') \<Rightarrow>
          (if length foods = 0 then (Inl (NotFound dishName), s')
           else case findBestMatch fz foods dishName of
                  None \<Rightarrow> (Inl (NoMatch dishName), s')
                | Some bestMatch \<Rightarrow>
                    (case extractCalories bestMatch of
                       None \<Rightarrow> (Inl (CaloriesUnavailable dishName), s')
                     | Some caloriesPer100g \<Rightarrow>
                         (case compute caloriesPer100g nservings of
                            (caloriesPerServing, totalCalories) \<Rightarrow>
                              (Inr \<lparr>dish_name = dishName,
                                    servings = nservings,
                                    calories_per_serving = caloriesPerServing,
                                    total_calories = totalCalories,
                                    source = ''USDA FoodData Central'',
                                    matched_food = description bestMatch,
                                    food_id = fdcId bestMatch\<rparr>, s')))))"

text \<open>Repeated calls of \<open>searchFoods\<close> with one query and page size, at the given times.\<close>

fun searchFoods_repeat ::
  "axios \<Rightarrow> service \<Rightarrow> string \<Rightarrow> int \<Rightarrow> nat list \<Rightarrow> state \<Rightarrow> (error + food list) list \<times> state"
  where
  "searchFoods_repeat ax svc query pageSize [] s = ([], s)"
| "searchFoods_repeat ax svc query pageSize (t # ts) s =
     (case searchFoods ax svc t query pageSize s of
        (r, s') \<Rightarrow>
          (case searchFoods_repeat ax svc query pageSize ts s' of
             (rs, s'') \<Rightarrow> (r # rs, s'')))"

subsection \<open>Sample data\<close>

definition biryani :: food where
  "biryani =
     \<lparr>fdcId = 123456,
      description = ''Chicken biryani, with rice'',
      brandName = None,
      ingredients = None,
      foodNutrients = Some
        [\<lparr>nutrientId = 1003, nutrientName = Some ''Protein'', nutrient_value = Some 12\<rparr>,
         \<lparr>nutrientId = 1008, nutrientName = Some ''Energy'', nutrient_value = Some 280\<rparr>]\<rparr>"

definition water :: food where
  "water =
     \<lparr>fdcId = 171881,
      description = ''Water, bottled, generic'',
      brandName = None,
      ingredients = None,
      foodNutrients = Some
        [\<lparr>nutrientId = 1008, nutrientName = Some ''Energy'', nutrient_value = Some 0\<rparr>]\<rparr>"

definition soup :: food where
  "soup =
     \<lparr>fdcId = 172001,
      description = ''Soup, lentil'',
      brandName = None,
      ingredients = None,
      foodNutrients = Some
        [\<lparr>nutrientId = 1008, nutrientName = Some ''Energy'', nutrient_value = Some 87\<rparr>]\<rparr>"

definition protein_only :: food where
  "protein_only =
     \<lparr>fdcId = 173002,
      description = ''Egg white, dried'',
      brandName = None,
      ingredients = None,
      foodNutrients = Some
        [\<lparr>nutrientId = 1003, nutrientName = Some ''Protein'', nutrient_value = Some 81\<rparr>,
         \<lparr>nutrientId = 1004, nutrientName = Some ''Total lipid (fat)'', nutrient_value = Some 0\<rparr>]\<rparr>"

text \<open>The number that the literal \<open>87.4\<close> denotes: the binary64 value nearest to 87.4.\<close>

definition n87_4 :: rat where
  "n87_4 = 3075114120563917 / 2 ^ 45"

definition usda :: service where
  "usda = \<lparr>apiKey = ''KEY'', baseURL = ''https://api.nal.usda.gov/fdc/v1''\<rparr>"

definition empty_state :: state where
  "empty_state = \<lparr>cache = Map.empty, requests = []\<rparr>"

text \<open>A client that answers every request with the given list of foods.\<close>

definition serve :: "food list \<Rightarrow> axios" where
  "serve fs = (\<lambda>now req. Resolved (Data (Some fs)))"

text \<open>A client whose every request is rejected with the given HTTP status.\<close>

definition reject :: "nat option \<Rightarrow> axios" where
  "reject st = (\<lambda>now req. Rejected st)"

text \<open>
  A client that answers with the given list of foods at time 0 and rejects every later
  request with status 500.
\<close>

definition once :: "food list \<Rightarrow> axios" where
  "once fs = (\<lambda>now req. if now = 0 then Resolved (Data (Some fs)) else Rejected (Some 500))"

text \<open>A client that answers every request with status 200 and a body that is not JSON.\<close>

definition serve_text :: "string \<Rightarrow> axios" where
  "serve_text body = (\<lambda>now req. Resolved (RawText body))"

text \<open>A matcher for which no food clears the threshold.\<close>

definition no_match :: fuse where
  "no_match = (\<lambda>foods query. [])"

section \<open>Evaluation and basic facts\<close>

lemmas eval_defs =
  getCalories_def searchFoods_def cache_get_def cacheKey_def toString_def digit_char_def
  digits_of.simps
  search_request_def trim_def is_ws_def serve_def reject_def empty_state_def cache_set_def
  findBestMatch_def extractCalories_def is_energy_def toLowerCase_def lower_char_def
  parseFloat_def Let_def water_def biryani_def soup_def protein_only_def usda_def
  no_match_def serve_text_def

subsection \<open>Rounding\<close>

lemma Math_round_of_int: "Math_round (of_int k) = k"
  unfolding Math_round_def by (rule floor_unique) simp_all

lemma Math_round_numeral: "Math_round (numeral k) = numeral k"
  using Math_round_of_int[of "numeral k"] by simp

lemma Math_round_nearest: "\<bar>of_int (Math_round x) - x\<bar> \<le> 1 / 2"
  unfolding Math_round_def by linarith

lemma Math_round_Ints: "x \<in> \<int> \<Longrightarrow> of_int (Math_round x) = x"
  by (auto simp: Ints_def Math_round_of_int)

subsection \<open>Rounding to binary64\<close>

lemma round_half_even_of_int: "round_half_even (of_int m) = m"
  by (simp add: round_half_even_def)

lemma ilog2_ge_1:
  assumes "1 \<le> x"
  shows "0 \<le> ilog2 x" and "2 ^ nat (ilog2 x) \<le> x" and "x < 2 ^ nat (ilog2 x + 1)"
proof -
  let ?f = "\<lfloor>x\<rfloor>"
  have f: "0 < ?f" using assms by simp
  have b: "2 ^ nat (bitlen ?f - 1) \<le> ?f" "?f < 2 ^ nat (bitlen ?f)"
    using bitlen_bounds[OF f] by simp_all
  have pos: "1 \<le> bitlen ?f"
    using f bitlen_eq_zero_iff[of ?f] bitlen_nonneg[of ?f] by linarith
  have e: "ilog2 x = bitlen ?f - 1" using assms by (simp add: ilog2_def)
  show "0 \<le> ilog2 x" using e pos by simp
  have "rat_of_int (2 ^ nat (bitlen ?f - 1)) \<le> of_int ?f"
    using b(1) by (simp only: of_int_le_iff)
  also have "\<dots> \<le> x" by simp
  finally show "2 ^ nat (ilog2 x) \<le> x" using e by simp
  have "?f + 1 \<le> 2 ^ nat (bitlen ?f)" using b(2) by simp
  then have "rat_of_int (?f + 1) \<le> of_int (2 ^ nat (bitlen ?f))"
    by (simp only: of_int_le_iff)
  moreover have "x < of_int (?f + 1)" by simp linarith
  ultimately have "x < 2 ^ nat (bitlen ?f)" by simp
  then show "x < 2 ^ nat (ilog2 x + 1)" using e by simp
qed

lemma below_overflow: "x \<le> 2 ^ n \<Longrightarrow> n < 1024 \<Longrightarrow> \<not> (2::rat) powi 1024 \<le> x"
proof -
  assume a: "x \<le> 2 ^ n" "n < 1024"
  have "(2::rat) ^ n < 2 ^ 1024"
  proof (rule power_strict_increasing)
    show "n < 1024" by (rule a(2))
    show "(1::rat) < 2" by simp
  qed
  moreover have "(2::rat) powi 1024 = 2 ^ 1024" by (simp add: power_int_def)
  ultimately show ?thesis using a(1) by linarith
qed

text \<open>Evaluation of \<open>fl\<close> at a value that does not overflow, step by step.\<close>

lemma fl_eval:
  assumes x: "x \<noteq> 0" and q: "max (ilog2 \<bar>x\<bar>) (- 1022) - 52 = q"
    and m: "round_half_even (\<bar>x\<bar> / 2 powi q) = m"
    and y: "rat_of_int m * 2 powi q = y" and b: "y \<le> 2 ^ n" "n < 1024"
  shows "fl x = Finite (if x < 0 then - y else y)"
proof -
  have "fl x = (if 2 powi 1024 \<le> y then (if x < 0 then NegInfinity else PosInfinity)
                else Finite (if x < 0 then - y else y))"
    using x by (simp only: fl_def Let_def q m y if_False)
  then show ?thesis using below_overflow[OF b] by (simp only: if_False)
qed

text \<open>A value with at most 53 significant bits is not changed by the rounding.\<close>

lemma fl_exact:
  assumes x: "x \<noteq> 0" and e: "ilog2 \<bar>x\<bar> = e" "- 1022 \<le> e"
    and m: "\<bar>x\<bar> / 2 powi (e - 52) = of_int m" and b: "\<bar>x\<bar> \<le> 2 ^ n" "n < 1024"
  shows "fl x = Finite x"
proof -
  have q: "max (ilog2 \<bar>x\<bar>) (- 1022) - 52 = e - 52" using e by simp
  have p: "(2::rat) powi (e - 52) \<noteq> 0" by simp
  have y: "rat_of_int m * 2 powi (e - 52) = \<bar>x\<bar>"
    using m p by (metis nonzero_divide_eq_eq)
  have r: "round_half_even (\<bar>x\<bar> / 2 powi (e - 52)) = m"
    by (simp only: m round_half_even_of_int)
  have "fl x = Finite (if x < 0 then - \<bar>x\<bar> else \<bar>x\<bar>)"
    by (rule fl_eval[OF x q r y b])
  then show ?thesis by simp
qed

lemma fl_of_int:
  assumes "\<bar>k\<bar> \<le> 2 ^ 53"
  shows "fl (of_int k) = Finite (of_int k)"
proof (cases "k = 0")
  case True
  then show ?thesis by (simp add: fl_def)
next
  case False
  let ?a = "\<bar>rat_of_int k\<bar>"
  let ?e = "ilog2 ?a"
  have a1: "1 \<le> ?a" using False by (simp flip: of_int_abs)
  have a53: "?a \<le> 2 ^ 53"
  proof -
    have "rat_of_int \<bar>k\<bar> \<le> of_int (2 ^ 53)" using assms by (simp only: of_int_le_iff)
    then show ?thesis by simp
  qed
  note l = ilog2_ge_1[OF a1]
  have "(2::rat) ^ nat ?e \<le> 2 ^ 53" using l(2) a53 by linarith
  then have e53: "nat ?e \<le> 53"
    using power_le_imp_le_exp[of "2::rat" "nat ?e" 53] by linarith
  have "\<exists>m. ?a / 2 powi (?e - 52) = of_int m"
  proof (cases "?e \<le> 52")
    case True
    then have "?e - 52 = - int (nat (52 - ?e))" by simp
    then have "(2::rat) powi (?e - 52) = 2 powi (- int (nat (52 - ?e)))" by simp
    also have "\<dots> = inverse (2 ^ nat (52 - ?e))"
      by (simp only: power_int_minus power_int_of_nat)
    finally have "(2::rat) powi (?e - 52) = inverse (2 ^ nat (52 - ?e))" .
    then have "?a / 2 powi (?e - 52) = of_int (\<bar>k\<bar> * 2 ^ nat (52 - ?e))"
      by (simp add: divide_inverse)
    then show ?thesis by blast
  next
    case False
    then have e: "?e = 53" using e53 l(1) by linarith
    then have "2 ^ 53 \<le> ?a" using l(2) by simp
    then have "?a = 2 ^ 53" using a53 by linarith
    then have "?a / 2 powi (?e - 52) = of_int (2 ^ 52)" using e by simp
    then show ?thesis by blast
  qed
  then obtain m where m: "?a / 2 powi (?e - 52) = of_int m" by blast
  have nz: "rat_of_int k \<noteq> 0" using False by simp
  have lo: "- 1022 \<le> ?e" using l(1) by simp
  show ?thesis
    by (rule fl_exact[OF nz refl lo m a53]) simp
qed

lemma js_times_of_int:
  assumes "\<bar>a * b\<bar> \<le> 2 ^ 53"
  shows "js_times (of_int a) (of_int b) = Finite (of_int (a * b))"
  using fl_of_int[OF assms] by (simp add: js_times_def)

text \<open>
  The model against binary64 arithmetic at values where the rounding shows:
  the literals 87.4, 0.3 and 1.15, and the products \<open>5 * 0.3\<close> (1.5),
  \<open>10 * 1.15\<close> (11.5, by a tie), \<open>3 * (2\<^sup>5\<^sup>3 - 1)\<close> and \<open>87.4 * 3\<close>.
\<close>

lemma fl_87_4: "fl (874 / 10) = Finite n87_4"
proof -
  have "fl (874 / 10) = Finite (if (874 / 10 :: rat) < 0 then - (3075114120563917 / 2 ^ 45)
      else 3075114120563917 / 2 ^ 45)"
  proof (rule fl_eval[where q = "- 46" and m = 6150228241127834 and n = 7])
    show "(874 / 10 :: rat) \<noteq> 0" by simp
    show "max (ilog2 \<bar>874 / 10\<bar>) (- 1022) - 52 = - 46" by code_simp
    show "round_half_even (\<bar>874 / 10\<bar> / 2 powi - 46) = 6150228241127834" by code_simp
    show "rat_of_int 6150228241127834 * 2 powi - 46 = 3075114120563917 / 2 ^ 45" by code_simp
    show "(3075114120563917 / 2 ^ 45 :: rat) \<le> 2 ^ 7" by simp
    show "(7::nat) < 1024" by simp
  qed
  then show ?thesis by (simp add: n87_4_def)
qed

lemma fl_0_3: "fl (3 / 10) = Finite (5404319552844595 / 2 ^ 54)"
proof -
  have "fl (3 / 10) = Finite (if (3 / 10 :: rat) < 0 then - (5404319552844595 / 2 ^ 54)
      else 5404319552844595 / 2 ^ 54)"
  proof (rule fl_eval[where q = "- 54" and m = 5404319552844595 and n = 0])
    show "(3 / 10 :: rat) \<noteq> 0" by simp
    show "max (ilog2 \<bar>3 / 10\<bar>) (- 1022) - 52 = - 54" by code_simp
    show "round_half_even (\<bar>3 / 10\<bar> / 2 powi - 54) = 5404319552844595" by code_simp
    show "rat_of_int 5404319552844595 * 2 powi - 54 = 5404319552844595 / 2 ^ 54" by code_simp
    show "(5404319552844595 / 2 ^ 54 :: rat) \<le> 2 ^ 0" by simp
    show "(0::nat) < 1024" by simp
  qed
  then show ?thesis by simp
qed

lemma fl_1_15: "fl (115 / 100) = Finite (5179139571476070 / 2 ^ 52)"
proof -
  have "fl (115 / 100) = Finite (if (115 / 100 :: rat) < 0 then - (5179139571476070 / 2 ^ 52)
      else 5179139571476070 / 2 ^ 52)"
  proof (rule fl_eval[where q = "- 52" and m = 5179139571476070 and n = 1])
    show "(115 / 100 :: rat) \<noteq> 0" by simp
    show "max (ilog2 \<bar>115 / 100\<bar>) (- 1022) - 52 = - 52" by code_simp
    show "round_half_even (\<bar>115 / 100\<bar> / 2 powi - 52) = 5179139571476070" by code_simp
    show "rat_of_int 5179139571476070 * 2 powi - 52 = 5179139571476070 / 2 ^ 52" by code_simp
    show "(5179139571476070 / 2 ^ 52 :: rat) \<le> 2 ^ 1" by simp
    show "(1::nat) < 1024" by simp
  qed
  then show ?thesis by simp
qed

lemma js_times_5_0_3: "js_times 5 (5404319552844595 / 2 ^ 54) = Finite (3 / 2)"
proof -
  have "fl (5 * (5404319552844595 / 2 ^ 54)) =
     Finite (if (5 * (5404319552844595 / 2 ^ 54) :: rat) < 0 then - (3 / 2) else 3 / 2)"
  proof (rule fl_eval[where q = "- 52" and m = 6755399441055744 and n = 1])
    show "(5 * (5404319552844595 / 2 ^ 54) :: rat) \<noteq> 0" by simp
    show "max (ilog2 \<bar>5 * (5404319552844595 / 2 ^ 54)\<bar>) (- 1022) - 52 = - 52" by code_simp
    show "round_half_even (\<bar>5 * (5404319552844595 / 2 ^ 54)\<bar> / 2 powi - 52) = 6755399441055744"
      by code_simp
    show "rat_of_int 6755399441055744 * 2 powi - 52 = 3 / 2" by code_simp
    show "(3 / 2 :: rat) \<le> 2 ^ 1" by simp
    show "(1::nat) < 1024" by simp
  qed
  then show ?thesis by (simp add: js_times_def)
qed

lemma js_times_10_1_15: "js_times 10 (5179139571476070 / 2 ^ 52) = Finite (23 / 2)"
proof -
  have "fl (10 * (5179139571476070 / 2 ^ 52)) =
     Finite (if (10 * (5179139571476070 / 2 ^ 52) :: rat) < 0 then - (23 / 2) else 23 / 2)"
  proof (rule fl_eval[where q = "- 49" and m = 6473924464345088 and n = 4])
    show "(10 * (5179139571476070 / 2 ^ 52) :: rat) \<noteq> 0" by simp
    show "max (ilog2 \<bar>10 * (5179139571476070 / 2 ^ 52)\<bar>) (- 1022) - 52 = - 49" by code_simp
    show "round_half_even (\<bar>10 * (5179139571476070 / 2 ^ 52)\<bar> / 2 powi - 49) = 6473924464345088"
      by code_simp
    show "rat_of_int 6473924464345088 * 2 powi - 49 = 23 / 2" by code_simp
    show "(23 / 2 :: rat) \<le> 2 ^ 4" by simp
    show "(4::nat) < 1024" by simp
  qed
  then show ?thesis by (simp add: js_times_def)
qed

lemma js_times_3_big: "js_times 3 (2 ^ 53 - 1) = Finite 27021597764222972"
proof -
  have "fl (3 * (2 ^ 53 - 1)) =
     Finite (if (3 * (2 ^ 53 - 1) :: rat) < 0 then - 27021597764222972 else 27021597764222972)"
  proof (rule fl_eval[where q = 2 and m = 6755399441055743 and n = 55])
    show "(3 * (2 ^ 53 - 1) :: rat) \<noteq> 0" by simp
    show "max (ilog2 \<bar>3 * (2 ^ 53 - 1)\<bar>) (- 1022) - 52 = 2" by code_simp
    show "round_half_even (\<bar>3 * (2 ^ 53 - 1)\<bar> / 2 powi 2) = 6755399441055743" by code_simp
    show "rat_of_int 6755399441055743 * 2 powi 2 = 27021597764222972" by code_simp
    show "(27021597764222972 :: rat) \<le> 2 ^ 55" by simp
    show "(55::nat) < 1024" by simp
  qed
  then show ?thesis by (simp add: js_times_def)
qed

lemma js_times_87_4_3: "js_times n87_4 3 = Finite (1153167795211469 / 2 ^ 42)"
proof -
  have "fl (3075114120563917 / 2 ^ 45 * 3) =
     Finite (if (3075114120563917 / 2 ^ 45 * 3 :: rat) < 0 then - (1153167795211469 / 2 ^ 42)
       else 1153167795211469 / 2 ^ 42)"
  proof (rule fl_eval[where q = "- 44" and m = 4612671180845876 and n = 9])
    show "(3075114120563917 / 2 ^ 45 * 3 :: rat) \<noteq> 0" by simp
    show "max (ilog2 \<bar>3075114120563917 / 2 ^ 45 * 3\<bar>) (- 1022) - 52 = - 44" by code_simp
    show "round_half_even (\<bar>3075114120563917 / 2 ^ 45 * 3\<bar> / 2 powi - 44) = 4612671180845876"
      by code_simp
    show "rat_of_int 4612671180845876 * 2 powi - 44 = 1153167795211469 / 2 ^ 42" by code_simp
    show "(1153167795211469 / 2 ^ 42 :: rat) \<le> 2 ^ 9" by simp
    show "(9::nat) < 1024" by simp
  qed
  then show ?thesis by (simp add: js_times_def n87_4_def)
qed

lemma js_times_87_halves: "js_times 87 (3 / 2) = Finite (261 / 2)"
proof -
  have "fl (87 * (3 / 2)) = Finite (if (87 * (3 / 2) :: rat) < 0 then - (261 / 2) else 261 / 2)"
  proof (rule fl_eval[where q = "- 45" and m = 4591560557592576 and n = 8])
    show "(87 * (3 / 2) :: rat) \<noteq> 0" by simp
    show "max (ilog2 \<bar>87 * (3 / 2)\<bar>) (- 1022) - 52 = - 45" by code_simp
    show "round_half_even (\<bar>87 * (3 / 2)\<bar> / 2 powi - 45) = 4591560557592576" by code_simp
    show "rat_of_int 4591560557592576 * 2 powi - 45 = 261 / 2" by code_simp
    show "(261 / 2 :: rat) \<le> 2 ^ 8" by simp
    show "(8::nat) < 1024" by simp
  qed
  then show ?thesis by (simp add: js_times_def)
qed

subsection \<open>The calculator at sample values\<close>

lemma compute_280: "compute 280 2 = (280, Finite 560)"
  using js_times_of_int[of 280 2]
  by (simp add: compute_def Let_def Math_round_numeral)

lemma Math_round_87_4: "Math_round n87_4 = 87"
  unfolding n87_4_def by code_simp

lemma compute_874: "compute n87_4 3 = (87, Finite 261)"
  using js_times_of_int[of 87 3]
  by (simp add: compute_def Let_def Math_round_87_4 Math_round_numeral)

lemma Math_round_261_halves: "Math_round (261 / 2) = 131"
  by code_simp

lemma compute_87: "compute 87 (3 / 2) = (87, Finite 131)"
  by (simp add: compute_def Let_def Math_round_numeral js_times_87_halves Math_round_261_halves)

subsection \<open>The matcher\<close>

lemma findBestMatch_nonempty: "foods \<noteq> [] \<Longrightarrow> \<exists>c. findBestMatch fz foods q = Some c"
  by (simp add: findBestMatch_def Let_def)

lemma findBestMatch_fallback:
  "foods \<noteq> [] \<Longrightarrow> fz foods q = [] \<Longrightarrow> findBestMatch fz foods q = Some (hd foods)"
  by (cases foods) (simp_all add: findBestMatch_def Let_def)

lemma findBestMatch_member:
  "set (fz foods q) \<subseteq> set foods \<Longrightarrow> findBestMatch fz foods q = Some c \<Longrightarrow> c \<in> set foods"
  by (cases foods; cases "fz foods q") (auto simp: findBestMatch_def Let_def split: if_splits)

subsection \<open>Errors of the search and of the lookup\<close>

lemma searchFoods_error_kinds:
  "fst (searchFoods ax svc now q p s) = Inl e \<Longrightarrow>
     e = RateLimited \<or> e = Unauthorized \<or> e = Transient"
  by (auto simp: searchFoods_def Let_def
      split: option.splits axios_result.splits if_splits)

lemma getCalories_never_NoMatch:
  "fst (getCalories ax fz svc now d n s) \<noteq> Inl (NoMatch d')"
proof (cases "searchFoods ax svc now d 25 s")
  case (Pair r s')
  show ?thesis
  proof (cases r)
    case (Inl e)
    have "e \<noteq> NoMatch d'"
      using Pair Inl searchFoods_error_kinds[of ax svc now d 25 s e] by auto
    then show ?thesis using Pair Inl by (simp add: getCalories_def)
  next
    case (Inr foods)
    show ?thesis
    proof (cases "foods = []")
      case True
      then show ?thesis using Pair Inr by (simp add: getCalories_def)
    next
      case False
      then obtain c where "findBestMatch fz foods d = Some c"
        using findBestMatch_nonempty by blast
      then show ?thesis using Pair Inr False
        by (simp add: getCalories_def split: option.splits prod.splits)
    qed
  qed
qed

lemma getCalories_success_fields:
  assumes "fst (getCalories ax fz svc now d n s) = Inr r"
  shows "\<exists>c. compute c n = (calories_per_serving r, total_calories r) \<and> servings r = n"
  using assms
  by (auto simp: getCalories_def split: prod.splits sum.splits if_splits option.splits)

subsection \<open>The cached search\<close>

lemma response_foods_None_iff: "response_foods b = None \<longleftrightarrow> b = NoData"
  by (cases b rule: response_foods.cases) simp_all

lemma searchFoods_hit:
  "cache_get (cache s) now (cacheKey q p) = Some v \<Longrightarrow> searchFoods ax svc now q p s = (Inr v, s)"
  by (simp add: searchFoods_def)

lemma searchFoods_miss_rejected:
  "cache_get (cache s) now (cacheKey q p) = None \<Longrightarrow>
   ax now (search_request svc q p) = Rejected st \<Longrightarrow>
   fst (searchFoods ax svc now q p s) =
     Inl (if st = Some 429 then RateLimited else if st = Some 403 then Unauthorized else Transient)"
  by (simp add: searchFoods_def Let_def)

lemma searchFoods_miss_nodata:
  "cache_get (cache s) now (cacheKey q p) = None \<Longrightarrow>
   ax now (search_request svc q p) = Resolved NoData \<Longrightarrow>
   fst (searchFoods ax svc now q p s) = Inl Transient"
  by (simp add: searchFoods_def Let_def)

lemma searchFoods_miss_stores:
  assumes "cache_get (cache s) now (cacheKey q p) = None"
    and "ax now (search_request svc q p) = Resolved b"
    and "response_foods b = Some fs"
  shows "searchFoods ax svc now q p s =
     (Inr fs,
      \<lparr>cache = (cache s)(cacheKey q p \<mapsto> \<lparr>ce_value = fs, ce_insertedAt = now\<rparr>),
       requests = requests s @ [search_request svc q p]\<rparr>)"
  using assms by (simp add: searchFoods_def Let_def cache_set_def)

lemma searchFoods_RateLimited_iff:
  "fst (searchFoods ax svc now q p s) = Inl RateLimited \<longleftrightarrow>
     cache_get (cache s) now (cacheKey q p) = None \<and>
     ax now (search_request svc q p) = Rejected (Some 429)"
  by (auto simp: searchFoods_def Let_def
      split: option.splits axios_result.splits if_splits)

lemma searchFoods_Unauthorized_iff:
  "fst (searchFoods ax svc now q p s) = Inl Unauthorized \<longleftrightarrow>
     cache_get (cache s) now (cacheKey q p) = None \<and>
     ax now (search_request svc q p) = Rejected (Some 403)"
  by (auto simp: searchFoods_def Let_def
      split: option.splits axios_result.splits if_splits)

lemma searchFoods_Transient_iff:
  "fst (searchFoods ax svc now q p s) = Inl Transient \<longleftrightarrow>
     cache_get (cache s) now (cacheKey q p) = None \<and>
     (ax now (search_request svc q p) = Resolved NoData \<or>
      (\<exists>st. ax now (search_request svc q p) = Rejected st \<and> st \<noteq> Some 429 \<and> st \<noteq> Some 403))"
  by (auto simp: searchFoods_def Let_def response_foods_None_iff
      split: option.splits axios_result.splits if_splits)

lemma search_empty: "searchFoods (serve fs) usda 0 q 25 empty_state = 
   (Inr fs, \<lparr>cache = [cacheKey q 25 \<mapsto> \<lparr>ce_value = fs, ce_insertedAt = 0\<rparr>], 
     requests = [search_request usda q 25]\<rparr>)"
  by (simp add: searchFoods_def cache_get_def empty_state_def serve_def cache_set_def Let_def)

lemma cache_get_fresh:
  "c k = Some e \<Longrightarrow> now \<le> ce_insertedAt e + stdTTL \<Longrightarrow> cache_get c now k = Some (ce_value e)"
  by (simp add: cache_get_def)

lemma searchFoods_repeat_hits:
  assumes "cache s (cacheKey q p) = Some e"
    and "\<forall>t \<in> set ts. t \<le> ce_insertedAt e + stdTTL"
  shows "searchFoods_repeat ax svc q p ts s = (replicate (length ts) (Inr (ce_value e)), s)"
  using assms
proof (induction ts)
  case Nil
  then show ?case by simp
next
  case (Cons t ts)
  have "cache_get (cache s) t (cacheKey q p) = Some (ce_value e)"
    using Cons.prems by (simp add: cache_get_fresh)
  then have "searchFoods ax svc t q p s = (Inr (ce_value e), s)"
    by (rule searchFoods_hit)
  then show ?case using Cons by simp
qed

lemma searchFoods_repeat_after_miss:
  assumes miss: "cache_get (cache s) t0 (cacheKey q p) = None"
    and ok: "ax t0 (search_request svc q p) = Resolved b"
    and fs: "response_foods b = Some fs"
    and window: "\<forall>t \<in> set ts. t \<le> t0 + stdTTL"
  shows "searchFoods_repeat ax svc q p (t0 # ts) s =
     (replicate (Suc (length ts)) (Inr fs), snd (searchFoods ax svc t0 q p s))"
proof -
  let ?s' = "\<lparr>cache = (cache s)(cacheKey q p \<mapsto> \<lparr>ce_value = fs, ce_insertedAt = t0\<rparr>),
       requests = requests s @ [search_request svc q p]\<rparr>"
  have first: "searchFoods ax svc t0 q p s = (Inr fs, ?s')"
    using searchFoods_miss_stores[of s t0 q p ax svc b fs] miss ok fs by blast
  have "cache ?s' (cacheKey q p) = Some \<lparr>ce_value = fs, ce_insertedAt = t0\<rparr>" by simp
  moreover have "\<forall>t \<in> set ts. t \<le> ce_insertedAt \<lparr>ce_value = fs, ce_insertedAt = t0\<rparr> + stdTTL"
    using window by simp
  ultimately have "searchFoods_repeat ax svc q p ts ?s' =
      (replicate (length ts) (Inr (ce_value \<lparr>ce_value = fs, ce_insertedAt = t0\<rparr>)), ?s')"
    by (rule searchFoods_repeat_hits)
  then show ?thesis using first by simp
qed

lemma searchFoods_repeat_at_most_once:
  assumes "\<forall>t \<in> set ts. t0 \<le> t \<and> t \<le> t0 + stdTTL"
    and "\<forall>t \<in> set ts. \<exists>b. ax t (search_request svc q p) = Resolved b \<and> b \<noteq> NoData"
  shows "length (requests (snd (searchFoods_repeat ax svc q p ts s))) \<le> Suc (length (requests s))"
  using assms
proof (induction ts arbitrary: s)
  case Nil
  then show ?case by simp
next
  case (Cons t ts)
  show ?case
  proof (cases "cache_get (cache s) t (cacheKey q p)")
    case (Some v)
    then have "searchFoods ax svc t q p s = (Inr v, s)" by (rule searchFoods_hit)
    then have "snd (searchFoods_repeat ax svc q p (t # ts) s) =
        snd (searchFoods_repeat ax svc q p ts s)"
      by (simp split: prod.splits)
    then show ?thesis using Cons.IH[of s] Cons.prems by simp
  next
    case None
    obtain b where ok: "ax t (search_request svc q p) = Resolved b" and b: "b \<noteq> NoData"
      using Cons.prems(2) by auto
    obtain fs where fs: "response_foods b = Some fs"
      using b response_foods_None_iff[of b] by (cases "response_foods b") auto
    have "\<forall>u \<in> set ts. u \<le> t + stdTTL" using Cons.prems(1) by auto
    then have "searchFoods_repeat ax svc q p (t # ts) s =
       (replicate (Suc (length ts)) (Inr fs), snd (searchFoods ax svc t q p s))"
      using searchFoods_repeat_after_miss[of s t q p ax svc b fs ts] None ok fs by blast
    moreover have "requests (snd (searchFoods ax svc t q p s)) =
        requests s @ [search_request svc q p]"
      using searchFoods_miss_stores[of s t q p ax svc b fs] None ok fs by simp
    ultimately show ?thesis by simp
  qed
qed

subsection \<open>The cache key\<close>

lemma digit_char_in: "d < 10 \<Longrightarrow> digit_char d \<in> set ''0123456789''"
  unfolding digit_char_def by (rule nth_mem) simp

lemma digit_val_digit_char: "d < 10 \<Longrightarrow> digit_val (digit_char d) = d"
proof -
  assume "d < 10"
  then have "d = 0 \<or> d = 1 \<or> d = 2 \<or> d = 3 \<or> d = 4 \<or> d = 5 \<or> d = 6 \<or> d = 7 \<or> d = 8 \<or> d = 9"
    by arith
  then show ?thesis
    by (elim disjE) (simp_all add: digit_val_def digit_char_def)
qed

lemma decode_digits_of: "decode (digits_of n) = n"
proof (induction n rule: digits_of.induct)
  case (1 n)
  show ?case
  proof (cases "n < 10")
    case True
    then show ?thesis by (subst digits_of.simps) (simp add: decode_def digit_val_digit_char)
  next
    case False
    then have "decode (digits_of (n div 10)) = n div 10" using 1 by simp
    moreover have "digits_of n = digits_of (n div 10) @ [digit_char (n mod 10)]"
      using False by (subst digits_of.simps) simp
    ultimately show ?thesis
      by (simp add: decode_def digit_val_digit_char)
  qed
qed

lemma digits_of_inj: "digits_of m = digits_of n \<Longrightarrow> m = n"
  by (metis decode_digits_of)

lemma digits_of_chars: "set (digits_of n) \<subseteq> set ''0123456789''"
proof (induction n rule: digits_of.induct)
  case (1 n)
  show ?case
  proof (cases "n < 10")
    case True
    then show ?thesis using digit_char_in[of n] by (subst digits_of.simps) simp
  next
    case False
    then have "set (digits_of (n div 10)) \<subseteq> set ''0123456789''" using 1 by simp
    moreover have "digits_of n = digits_of (n div 10) @ [digit_char (n mod 10)]"
      using False by (subst digits_of.simps) simp
    moreover have "digit_char (n mod 10) \<in> set ''0123456789''"
      by (rule digit_char_in) simp
    ultimately show ?thesis by simp
  qed
qed

lemma digits_of_no_minus: "CHR ''-'' \<notin> set (digits_of n)"
  using digits_of_chars[of n] by auto

lemma digits_of_no_underscore: "CHR ''_'' \<notin> set (digits_of n)"
  using digits_of_chars[of n] by auto

lemma digits_of_hd: "\<exists>c cs. digits_of n = c # cs \<and> c \<noteq> CHR ''-''"
proof -
  have "digits_of n \<noteq> []" by (subst digits_of.simps) simp
  then obtain c cs where "digits_of n = c # cs" by (cases "digits_of n") auto
  moreover from this have "c \<noteq> CHR ''-''" using digits_of_no_minus[of n] by auto
  ultimately show ?thesis by blast
qed

lemma toString_inj: "toString i = toString j \<Longrightarrow> i = j"
proof -
  assume eq: "toString i = toString j"
  consider "i < 0" "j < 0" | "\<not> i < 0" "\<not> j < 0" | "i < 0" "\<not> j < 0" | "\<not> i < 0" "j < 0"
    by blast
  then show ?thesis
  proof cases
    case 1
    then have "nat (- i) = nat (- j)" using eq digits_of_inj by (simp add: toString_def)
    then show ?thesis using 1 by simp
  next
    case 2
    then have "nat i = nat j" using eq digits_of_inj by (simp add: toString_def)
    then show ?thesis using 2 by simp
  next
    case 3
    then show ?thesis using eq digits_of_hd[of "nat j"] by (auto simp: toString_def)
  next
    case 4
    then show ?thesis using eq digits_of_hd[of "nat i"] by (auto simp: toString_def)
  qed
qed

lemma toString_no_underscore: "CHR ''_'' \<notin> set (toString i)"
  using digits_of_no_underscore by (simp add: toString_def)

lemma split_at_last:
  "c \<notin> set t1 \<Longrightarrow> c \<notin> set t2 \<Longrightarrow> q1 @ c # t1 = q2 @ c # t2 \<Longrightarrow> q1 = q2 \<and> t1 = t2"
proof (induction q1 arbitrary: q2)
  case Nil
  then show ?case by (cases q2) auto
next
  case (Cons x q1)
  show ?case
  proof (cases q2)
    case Nil
    then show ?thesis using Cons.prems by auto
  next
    case (Cons y q2')
    then have "q1 @ c # t1 = q2' @ c # t2" and "x = y" using Cons.prems by simp_all
    then show ?thesis using Cons.IH[of q2'] Cons.prems(1,2) Cons by simp
  qed
qed

lemma cacheKey_inj: "cacheKey q1 p1 = cacheKey q2 p2 \<longleftrightarrow> q1 = q2 \<and> p1 = p2"
proof
  assume "cacheKey q1 p1 = cacheKey q2 p2"
  then have "q1 @ CHR ''_'' # toString p1 = q2 @ CHR ''_'' # toString p2"
    by (simp add: cacheKey_def)
  then have "q1 = q2 \<and> toString p1 = toString p2"
    using split_at_last[OF toString_no_underscore toString_no_underscore] by blast
  then show "q1 = q2 \<and> p1 = p2" using toString_inj by blast
qed simp

subsection \<open>The extractor\<close>

lemma extractCalories_truthy:
  "foodNutrients fd = Some ns \<Longrightarrow> find is_energy ns = Some e \<Longrightarrow>
   nutrient_value e = Some v \<Longrightarrow> v \<noteq> 0 \<Longrightarrow> extractCalories fd = Some v"
  by (simp add: extractCalories_def parseFloat_def)

lemma extractCalories_falsy:
  "foodNutrients fd = Some ns \<Longrightarrow> find is_energy ns = Some e \<Longrightarrow>
   nutrient_value e = None \<or> nutrient_value e = Some 0 \<Longrightarrow> extractCalories fd = None"
  by (auto simp: extractCalories_def)

lemma extractCalories_no_entry:
  "foodNutrients fd = None \<or> foodNutrients fd = Some [] \<or>
   (\<exists>ns. foodNutrients fd = Some ns \<and> (\<forall>x \<in> set ns. \<not> is_energy x)) \<Longrightarrow>
   extractCalories fd = None"
proof (elim disjE exE conjE)
  fix ns
  assume ns: "foodNutrients fd = Some ns" and "\<forall>x \<in> set ns. \<not> is_energy x"
  then have "find is_energy ns = None" by (simp add: find_None_iff)
  then show "extractCalories fd = None" using ns by (simp add: extractCalories_def)
qed (simp_all add: extractCalories_def)

lemma str_includes_iff: "str_includes s sub \<longleftrightarrow> (\<exists>a b. s = a @ sub @ b)"
proof (induction s)
  case Nil
  then show ?case by auto
next
  case (Cons c cs)
  show ?case
  proof
    assume "str_includes (c # cs) sub"
    then consider "prefix sub (c # cs)" | "str_includes cs sub" by auto
    then show "\<exists>a b. c # cs = a @ sub @ b"
    proof cases
      case 1
      then obtain b where "c # cs = sub @ b" by (auto simp: prefix_def)
      then have "c # cs = [] @ sub @ b" by simp
      then show ?thesis by blast
    next
      case 2
      then obtain a b where "cs = a @ sub @ b" using Cons.IH by blast
      then have "c # cs = (c # a) @ sub @ b" by simp
      then show ?thesis by blast
    qed
  next
    assume "\<exists>a b. c # cs = a @ sub @ b"
    then obtain a b where ab: "c # cs = a @ sub @ b" by blast
    show "str_includes (c # cs) sub"
    proof (cases a)
      case Nil
      then have "prefix sub (c # cs)" using ab by (simp add: prefix_def)
      then show ?thesis by simp
    next
      case (Cons x a')
      then have "cs = a' @ sub @ b" using ab by simp
      then have "str_includes cs sub" using Cons.IH by blast
      then show ?thesis by simp
    qed
  qed
qed

subsection \<open>The lookup\<close>

lemma findBestMatch_Some_nonempty: "findBestMatch fz foods q = Some b \<Longrightarrow> foods \<noteq> []"
  by (auto simp: findBestMatch_def)

lemma getCalories_propagates:
  "fst (searchFoods ax svc now d 25 s) = Inl e \<Longrightarrow>
   getCalories ax fz svc now d n s = (Inl e, snd (searchFoods ax svc now d 25 s))"
  by (cases "searchFoods ax svc now d 25 s") (simp add: getCalories_def)

lemma getCalories_NotFound:
  "fst (searchFoods ax svc now d 25 s) = Inr [] \<Longrightarrow>
   fst (getCalories ax fz svc now d n s) = Inl (NotFound d)"
  by (cases "searchFoods ax svc now d 25 s") (simp add: getCalories_def)

lemma getCalories_CaloriesUnavailable:
  "fst (searchFoods ax svc now d 25 s) = Inr foods \<Longrightarrow>
   findBestMatch fz foods d = Some b \<Longrightarrow> extractCalories b = None \<Longrightarrow>
   fst (getCalories ax fz svc now d n s) = Inl (CaloriesUnavailable d)"
  using findBestMatch_Some_nonempty[of fz foods d b]
  by (cases "searchFoods ax svc now d 25 s") (simp add: getCalories_def)

lemma getCalories_success:
  "fst (searchFoods ax svc now d 25 s) = Inr foods \<Longrightarrow>
   findBestMatch fz foods d = Some b \<Longrightarrow> extractCalories b = Some c \<Longrightarrow>
   fst (getCalories ax fz svc now d n s) =
     Inr \<lparr>dish_name = d, servings = n,
          calories_per_serving = fst (compute c n), total_calories = snd (compute c n),
          source = ''USDA FoodData Central'',
          matched_food = description b, food_id = fdcId b\<rparr>"
  using findBestMatch_Some_nonempty[of fz foods d b]
  by (cases "searchFoods ax svc now d 25 s") (simp add: getCalories_def split: prod.splits)

lemma message_inj: "message e1 = message e2 \<Longrightarrow> e1 = e2"
  by (cases e1; cases e2) simp_all

section \<open>The claims\<close>

text \<open>
  C1. For every non-empty list of candidates \<open>findBestMatch\<close> returns a candidate. When
  the fuzzy search returns no result (no candidate clears the threshold 0.6) it returns
  the first candidate of the list as the source gave it. The returned food is a member
  of the list provided the fuzzy search only returns items of its collection. As a
  consequence \<open>getCalories\<close> never fails with the "could not find a suitable match"
  error, for any client, service, time, servings and state.
\<close>

theorem findBestMatch_best_effort:
  "foods \<noteq> [] \<Longrightarrow>
     (\<exists>c. findBestMatch fz foods q = Some c) \<and>
     (fz foods q = [] \<longrightarrow> findBestMatch fz foods q = Some (hd foods)) \<and>
     (set (fz foods q) \<subseteq> set foods \<longrightarrow> the (findBestMatch fz foods q) \<in> set foods) \<and>
     (\<forall>ax svc now n s d'. fst (getCalories ax fz svc now q n s) \<noteq> Inl (NoMatch d'))"
  using findBestMatch_nonempty[of foods fz q] findBestMatch_fallback[of foods fz q]
    findBestMatch_member[of fz foods q] getCalories_never_NoMatch
  by auto

theorem findBestMatch_best_effort_witness:
  "[water, biryani] \<noteq> [] \<and>
   no_match [water, biryani] ''chicken biryani'' = [] \<and>
   set (no_match [water, biryani] ''chicken biryani'') \<subseteq> set [water, biryani] \<and>
   findBestMatch no_match [water, biryani] ''chicken biryani'' = Some water \<and>
   water \<in> set [water, biryani] \<and>
   fst (getCalories (serve [water, biryani]) no_match usda 0 ''chicken biryani'' 2 empty_state)
     \<noteq> Inl (NoMatch ''chicken biryani'')"
proof -
  have h1: "[water, biryani] \<noteq> []" by simp
  have h2: "no_match [water, biryani] ''chicken biryani'' = []" by (simp add: no_match_def)
  have h3: "set (no_match [water, biryani] ''chicken biryani'') \<subseteq> set [water, biryani]"
    by (simp add: no_match_def)
  show ?thesis
    using findBestMatch_best_effort[OF h1, of no_match "''chicken biryani''"] h1 h2 h3 by simp
qed

text \<open>
  C2, as stated: the total is the exact product of the rounded per-serving value and the
  servings, with no rounding of the product. This fails for servings that are not an
  integer: a food with 87 kcal and 3/2 servings gives the total 131, while the product
  is 130.5.
\<close>

theorem total_calories_exact_product_counterexample:
  "fst (getCalories (serve [soup]) no_match usda 0 ''lentil soup'' (3 / 2) empty_state) =
     Inr \<lparr>dish_name = ''lentil soup'', servings = 3 / 2, calories_per_serving = 87,
          total_calories = Finite 131, source = ''USDA FoodData Central'',
          matched_food = ''Soup, lentil'', food_id = 172001\<rparr> \<and>
   (0::rat) < 3 / 2 \<and>
   Finite 131 \<noteq> Finite (rat_of_int (Math_round (rat_of_int 87)) * (3 / 2))"
  by (simp add: eval_defs compute_87 Math_round_numeral)

text \<open>
  C2, amended. For every result of a successful lookup, the total is \<open>Math.round\<close> of
  the binary64 product of the already rounded per-serving value and the servings (an
  infinity when the product overflows). When the servings count is an integer and the
  exact product has magnitude at most \<open>2\<^sup>5\<^sup>3\<close>, the total is the exact product.
\<close>

theorem total_calories_rounded_product:
  assumes "fst (getCalories ax fz svc now d n s) = Inr r"
  shows "servings r = n \<and>
     total_calories r = Math_round_number (js_times (of_int (calories_per_serving r)) n) \<and>
     (n \<in> \<int> \<and> \<bar>of_int (calories_per_serving r) * n\<bar> \<le> 2 ^ 53 \<longrightarrow>
        total_calories r = Finite (of_int (calories_per_serving r) * n))"
proof -
  obtain c where c: "compute c n = (calories_per_serving r, total_calories r)"
    and n: "servings r = n"
    using getCalories_success_fields[OF assms] by blast
  have t: "total_calories r = Math_round_number (js_times (of_int (calories_per_serving r)) n)"
    using c by (auto simp: compute_def Let_def)
  have "total_calories r = Finite (of_int (calories_per_serving r) * n)"
    if "n \<in> \<int>" and bound: "\<bar>of_int (calories_per_serving r) * n\<bar> \<le> 2 ^ 53"
  proof -
    from that(1) obtain k where k: "n = of_int k" by (auto simp: Ints_def)
    have "rat_of_int \<bar>calories_per_serving r * k\<bar> \<le> of_int (2 ^ 53)"
      using bound k by simp
    then have "\<bar>calories_per_serving r * k\<bar> \<le> 2 ^ 53"
      by (simp only: of_int_le_iff)
    then have "js_times (of_int (calories_per_serving r)) (of_int k) =
        Finite (of_int (calories_per_serving r * k))"
      by (rule js_times_of_int)
    moreover have "Math_round (of_int (calories_per_serving r * k)) = calories_per_serving r * k"
      by (rule Math_round_of_int)
    ultimately have "Math_round_number (js_times (of_int (calories_per_serving r)) (of_int k)) =
        Finite (of_int (calories_per_serving r * k))"
      by (simp only: Math_round_number.simps)
    then show ?thesis using t k by simp
  qed
  then show ?thesis using t n by blast
qed

theorem total_calories_rounded_product_witness:
  "fst (getCalories (serve [biryani]) no_match usda 0 ''chicken biryani'' 2 empty_state) =
     Inr \<lparr>dish_name = ''chicken biryani'', servings = 2, calories_per_serving = 280,
          total_calories = Finite 560, source = ''USDA FoodData Central'',
          matched_food = ''Chicken biryani, with rice'', food_id = 123456\<rparr> \<and>
   (2::rat) \<in> \<int> \<and>
   \<bar>rat_of_int 280 * 2\<bar> \<le> 2 ^ 53 \<and>
   Finite 560 = Math_round_number (js_times (rat_of_int 280) 2) \<and>
   Finite 560 = Finite (rat_of_int 280 * 2)"
proof -
  have run:
    "fst (getCalories (serve [biryani]) no_match usda 0 ''chicken biryani'' 2 empty_state) =
       Inr \<lparr>dish_name = ''chicken biryani'', servings = 2, calories_per_serving = 280,
            total_calories = Finite 560, source = ''USDA FoodData Central'',
            matched_food = ''Chicken biryani, with rice'', food_id = 123456\<rparr>"
    by (simp add: eval_defs compute_280)
  show ?thesis using total_calories_rounded_product[OF run] run by simp
qed

text \<open>
  C4. The calculation rounds before it multiplies: the per-serving value is
  \<open>Math.round\<close> of the calories per 100 g, an integer at distance at most 1/2 from it,
  and the total is \<open>Math.round\<close> of the binary64 product of the per-serving value and
  the servings. \<open>compute(280, 2)\<close> is (280, 560). The literal \<open>87.4\<close> denotes the
  number \<open>n87_4\<close>, and \<open>compute(87.4, 3)\<close> is (87, 261), which is not the rounded
  product of 87.4 and 3 (that is 262).
\<close>

theorem compute_rounds_then_multiplies:
  "fst (compute c n) = Math_round c \<and>
   \<bar>of_int (fst (compute c n)) - c\<bar> \<le> 1 / 2 \<and>
   snd (compute c n) = Math_round_number (js_times (of_int (fst (compute c n))) n) \<and>
   compute 280 2 = (280, Finite 560) \<and>
   fl (874 / 10) = Finite n87_4 \<and>
   compute n87_4 3 = (87, Finite 261) \<and>
   Math_round_number (js_times n87_4 3) = Finite 262"
proof -
  have "Math_round (1153167795211469 / 2 ^ 42) = 262" by code_simp
  then have "Math_round_number (js_times n87_4 3) = Finite 262"
    by (simp add: js_times_87_4_3)
  moreover have "fst (compute c n) = Math_round c"
    by (simp add: compute_def Let_def)
  moreover have "\<bar>of_int (fst (compute c n)) - c\<bar> \<le> 1 / 2"
    using Math_round_nearest[of c] by (simp add: compute_def Let_def)
  moreover have
    "snd (compute c n) = Math_round_number (js_times (of_int (fst (compute c n))) n)"
    by (simp add: compute_def Let_def)
  ultimately show ?thesis
    using compute_280 compute_874 fl_87_4 by blast
qed

text \<open>
  C9. \<open>findBestMatch\<close> returns nothing for the empty list, and for a list of exactly one
  food it returns that food, whatever the query and whatever the fuzzy search would say.
\<close>

theorem findBestMatch_empty_and_single:
  "findBestMatch fz [] q = None \<and> findBestMatch fz [f] q = Some f"
  by (simp add: findBestMatch_def)

text \<open>
  C3, as stated: the cache key is derived from the trimmed query, so that two queries
  that differ only in surrounding whitespace share a cache entry. The key is built from
  the query as given: \<open>" pizza"\<close> and \<open>"pizza"\<close> trim to the same text but have
  different keys, and searching the second after the first contacts the source again.
\<close>

theorem cacheKey_trimmed_counterexample:
  "trim '' pizza'' = trim ''pizza'' \<and>
   cacheKey '' pizza'' 25 \<noteq> cacheKey ''pizza'' 25 \<and>
   fst (searchFoods (serve [biryani]) usda 0 ''pizza'' 25 empty_state) = Inr [biryani] \<and>
   requests (snd (searchFoods (serve [biryani]) usda 1 '' pizza'' 25
              (snd (searchFoods (serve [biryani]) usda 0 ''pizza'' 25 empty_state)))) =
     [search_request usda ''pizza'' 25, search_request usda ''pizza'' 25]"
  by (simp add: searchFoods_def cache_get_def cacheKey_def toString_def digit_char_def
      digits_of.simps
      search_request_def trim_def is_ws_def serve_def empty_state_def cache_set_def Let_def)

text \<open>
  C3, amended. The cache key is built from the query text as given (untrimmed, case
  preserved) and the page size: two calls have the same key exactly when their query
  texts and page sizes are equal. Only the query sent to the source is trimmed, and it is
  sent on every miss.
\<close>

theorem cacheKey_raw_query:
  "(cacheKey q1 p1 = cacheKey q2 p2 \<longleftrightarrow> q1 = q2 \<and> p1 = p2) \<and>
   param_query (search_request svc q1 p1) = trim q1 \<and>
   (cache_get (cache s) now (cacheKey q1 p1) = None \<longrightarrow>
      requests (snd (searchFoods ax svc now q1 p1 s)) = requests s @ [search_request svc q1 p1])"
  using cacheKey_inj[of q1 p1 q2 p2]
  by (auto simp: search_request_def searchFoods_def Let_def
      split: axios_result.splits option.splits)

theorem cacheKey_raw_query_witness:
  "cache_get (cache empty_state) 0 (cacheKey '' pizza'' 25) = None \<and>
   cacheKey '' pizza'' 25 \<noteq> cacheKey ''pizza'' 25 \<and>
   cacheKey ''pizza'' 25 = cacheKey ''pizza'' 25 \<and>
   param_query (search_request usda '' pizza'' 25) = ''pizza'' \<and>
   requests (snd (searchFoods (serve []) usda 0 '' pizza'' 25 empty_state)) =
     [search_request usda '' pizza'' 25]"
proof -
  have miss: "cache_get (cache empty_state) 0 (cacheKey '' pizza'' 25) = None"
    by (simp add: cache_get_def empty_state_def)
  have t: "trim '' pizza'' = ''pizza''"
    by (simp add: trim_def is_ws_def)
  show ?thesis
    using cacheKey_raw_query[of "'' pizza''" 25 "''pizza''" 25 usda empty_state 0 "serve []"]
      miss t
    by (simp add: empty_state_def)
qed

text \<open>
  C5, as stated: every failure of the request other than the statuses 429 and 403, a
  malformed response included, makes \<open>searchFoods\<close> fail with the generic error. A
  response with status 200 whose body is not JSON is not a failure for the code: the
  body has no property \<open>foods\<close>, the search returns the empty list and caches it, and
  the lookup reports that no nutrition data was found.
\<close>

theorem searchFoods_malformed_response_counterexample:
  "serve_text ''<html>maintenance</html>'' 0 (search_request usda ''pizza'' 25) =
     Resolved (RawText ''<html>maintenance</html>'') \<and>
   fst (searchFoods (serve_text ''<html>maintenance</html>'') usda 0 ''pizza'' 25 empty_state) =
     Inr [] \<and>
   fst (searchFoods (serve_text ''<html>maintenance</html>'') usda 0 ''pizza'' 25 empty_state) \<noteq>
     Inl Transient \<and>
   cache_get
     (cache (snd (searchFoods (serve_text ''<html>maintenance</html>'') usda 0 ''pizza'' 25
        empty_state))) 1 (cacheKey ''pizza'' 25) = Some [] \<and>
   fst (getCalories (serve_text ''<html>maintenance</html>'') no_match usda 0 ''pizza'' 2
     empty_state) = Inl (NotFound ''pizza'')"
  by (simp add: eval_defs stdTTL_def)

text \<open>
  C5, amended. \<open>searchFoods\<close> fails with the rate-limit error exactly when the cache
  misses and the request is rejected with status 429, with the access-denied error
  exactly when it is rejected with status 403, and with the generic error exactly when
  the request is rejected otherwise (another status, or no response at all, as for a
  network failure or a timeout) or the response has no data. These are its only errors.
  A successful response with an empty list of foods, without a list of foods, or with a
  body that is not JSON gives the empty list, not an error.
\<close>

theorem searchFoods_error_classification:
  "(fst (searchFoods ax svc now q p s) = Inl RateLimited \<longleftrightarrow>
      cache_get (cache s) now (cacheKey q p) = None \<and>
      ax now (search_request svc q p) = Rejected (Some 429)) \<and>
   (fst (searchFoods ax svc now q p s) = Inl Unauthorized \<longleftrightarrow>
      cache_get (cache s) now (cacheKey q p) = None \<and>
      ax now (search_request svc q p) = Rejected (Some 403)) \<and>
   (fst (searchFoods ax svc now q p s) = Inl Transient \<longleftrightarrow>
      cache_get (cache s) now (cacheKey q p) = None \<and>
      (ax now (search_request svc q p) = Resolved NoData \<or>
       (\<exists>st. ax now (search_request svc q p) = Rejected st \<and> st \<noteq> Some 429 \<and> st \<noteq> Some 403))) \<and>
   (\<forall>e. fst (searchFoods ax svc now q p s) = Inl e \<longrightarrow>
      e = RateLimited \<or> e = Unauthorized \<or> e = Transient) \<and>
   (cache_get (cache s) now (cacheKey q p) = None \<and>
    (ax now (search_request svc q p) = Resolved (Data (Some [])) \<or>
     ax now (search_request svc q p) = Resolved (Data None) \<or>
     (\<exists>body. ax now (search_request svc q p) = Resolved (RawText body))) \<longrightarrow>
      fst (searchFoods ax svc now q p s) = Inr [])"
proof -
  have "fst (searchFoods ax svc now q p s) = Inr []"
    if "cache_get (cache s) now (cacheKey q p) = None"
      and "ax now (search_request svc q p) = Resolved b" and "response_foods b = Some []" for b
    using searchFoods_miss_stores[of s now q p ax svc b "[]"] that by simp
  from this[of "Data (Some [])"] this[of "Data None"] this[of "RawText body" for body]
  show ?thesis
    using searchFoods_RateLimited_iff[of ax svc now q p s]
      searchFoods_Unauthorized_iff[of ax svc now q p s]
      searchFoods_Transient_iff[of ax svc now q p s]
      searchFoods_error_kinds[of ax svc now q p s]
    by auto
qed

theorem searchFoods_error_classification_witness:
  "fst (searchFoods (reject (Some 429)) usda 0 ''pizza'' 25 empty_state) = Inl RateLimited \<and>
   fst (searchFoods (reject (Some 403)) usda 0 ''pizza'' 25 empty_state) = Inl Unauthorized \<and>
   fst (searchFoods (reject (Some 500)) usda 0 ''pizza'' 25 empty_state) = Inl Transient \<and>
   fst (searchFoods (reject None) usda 0 ''pizza'' 25 empty_state) = Inl Transient \<and>
   fst (searchFoods (\<lambda>now req. Resolved NoData) usda 0 ''pizza'' 25 empty_state) = Inl Transient \<and>
   fst (searchFoods (serve []) usda 0 ''xyznonfood'' 25 empty_state) = Inr [] \<and>
   fst (searchFoods (serve_text ''<html>maintenance</html>'') usda 0 ''pizza'' 25 empty_state) =
     Inr []"
proof -
  have miss: "cache_get (cache empty_state) 0 k = None" for k
    by (simp add: cache_get_def empty_state_def)
  have a: "fst (searchFoods (reject (Some 429)) usda 0 ''pizza'' 25 empty_state) = Inl RateLimited"
    using searchFoods_error_classification[of "reject (Some 429)" usda 0 "''pizza''" 25
        empty_state] miss
    by (simp add: reject_def)
  have b: "fst (searchFoods (reject (Some 403)) usda 0 ''pizza'' 25 empty_state) = Inl Unauthorized"
    using searchFoods_error_classification[of "reject (Some 403)" usda 0 "''pizza''" 25
        empty_state] miss
    by (simp add: reject_def)
  have c: "fst (searchFoods (reject (Some 500)) usda 0 ''pizza'' 25 empty_state) = Inl Transient"
    using searchFoods_error_classification[of "reject (Some 500)" usda 0 "''pizza''" 25
        empty_state] miss
    by (simp add: reject_def)
  have d: "fst (searchFoods (reject None) usda 0 ''pizza'' 25 empty_state) = Inl Transient"
    using searchFoods_error_classification[of "reject None" usda 0 "''pizza''" 25
        empty_state] miss
    by (simp add: reject_def)
  have e: "fst (searchFoods (\<lambda>now req. Resolved NoData) usda 0 ''pizza'' 25 empty_state) =
      Inl Transient"
    using searchFoods_error_classification[of "\<lambda>now req. Resolved NoData" usda 0 "''pizza''" 25
        empty_state] miss
    by simp
  have f: "fst (searchFoods (serve []) usda 0 ''xyznonfood'' 25 empty_state) = Inr []"
    using searchFoods_error_classification[of "serve []" usda 0 "''xyznonfood''" 25
        empty_state] miss
    by (simp add: serve_def)
  have g: "fst (searchFoods (serve_text ''<html>maintenance</html>'') usda 0 ''pizza'' 25
      empty_state) = Inr []"
    using searchFoods_error_classification[of "serve_text ''<html>maintenance</html>''" usda 0
        "''pizza''" 25 empty_state] miss
    by (simp add: serve_text_def)
  show ?thesis using a b c d e f g by simp
qed

text \<open>
  C6. \<open>getCalories\<close> fails with the not-found error when the search returns no food,
  and with the calories-unavailable error when \<open>extractCalories\<close> returns nothing for
  the matched food. An error of \<open>searchFoods\<close> is passed on as it is, with the state
  the search left. Different failures have different messages. On success the result
  carries the dish name and servings given, the two computed values, the constant source
  label, and the description and identifier of the matched food.
\<close>

theorem getCalories_outcomes:
  "(fst (searchFoods ax svc now d 25 s) = Inr [] \<longrightarrow>
      fst (getCalories ax fz svc now d n s) = Inl (NotFound d)) \<and>
   (\<forall>foods b. fst (searchFoods ax svc now d 25 s) = Inr foods \<and>
        findBestMatch fz foods d = Some b \<and> extractCalories b = None \<longrightarrow>
      fst (getCalories ax fz svc now d n s) = Inl (CaloriesUnavailable d)) \<and>
   (\<forall>e. fst (searchFoods ax svc now d 25 s) = Inl e \<longrightarrow>
      getCalories ax fz svc now d n s = (Inl e, snd (searchFoods ax svc now d 25 s))) \<and>
   (\<forall>e1 e2. message e1 = message e2 \<longrightarrow> e1 = e2) \<and>
   (\<forall>foods b c. fst (searchFoods ax svc now d 25 s) = Inr foods \<and>
        findBestMatch fz foods d = Some b \<and> extractCalories b = Some c \<longrightarrow>
      fst (getCalories ax fz svc now d n s) =
        Inr \<lparr>dish_name = d, servings = n,
             calories_per_serving = fst (compute c n), total_calories = snd (compute c n),
             source = ''USDA FoodData Central'',
             matched_food = description b, food_id = fdcId b\<rparr>)"
  using getCalories_NotFound[of ax svc now d s fz n]
    getCalories_CaloriesUnavailable[of ax svc now d s _ fz _ n]
    getCalories_propagates[of ax svc now d s _ fz n]
    getCalories_success[of ax svc now d s _ fz _ _ n]
    message_inj
  by blast

theorem getCalories_outcomes_witness:
  "fst (getCalories (serve []) no_match usda 0 ''xyznonfood'' 2 empty_state)
     = Inl (NotFound ''xyznonfood'') \<and>
   fst (getCalories (serve [protein_only]) no_match usda 0 ''egg white'' 2 empty_state)
     = Inl (CaloriesUnavailable ''egg white'') \<and>
   fst (getCalories (reject (Some 429)) no_match usda 0 ''pizza'' 2 empty_state)
     = Inl RateLimited \<and>
   message (NotFound ''a'') \<noteq> message (CaloriesUnavailable ''a'') \<and>
   fst (getCalories (serve [biryani]) no_match usda 0 ''chicken biryani'' 2 empty_state) =
     Inr \<lparr>dish_name = ''chicken biryani'', servings = 2, calories_per_serving = 280,
          total_calories = Finite 560, source = ''USDA FoodData Central'',
          matched_food = ''Chicken biryani, with rice'', food_id = 123456\<rparr>"
proof -
  have a: "fst (getCalories (serve []) no_match usda 0 ''xyznonfood'' 2 empty_state)
     = Inl (NotFound ''xyznonfood'')"
    using getCalories_outcomes[of "serve []" usda 0 "''xyznonfood''" empty_state no_match 2]
    by (simp add: search_empty)
  have "findBestMatch no_match [protein_only] ''egg white'' = Some protein_only"
    by (simp add: findBestMatch_def)
  moreover have "extractCalories protein_only = None"
    by (simp add: eval_defs)
  ultimately have b: "fst (getCalories (serve [protein_only]) no_match usda 0 ''egg white'' 2 empty_state)
     = Inl (CaloriesUnavailable ''egg white'')"
    using getCalories_outcomes[of "serve [protein_only]" usda 0 "''egg white''" empty_state no_match 2]
    by (simp add: search_empty)
  have "fst (searchFoods (reject (Some 429)) usda 0 ''pizza'' 25 empty_state) = Inl RateLimited"
    by (simp add: searchFoods_def cache_get_def empty_state_def reject_def Let_def)
  then have c: "fst (getCalories (reject (Some 429)) no_match usda 0 ''pizza'' 2 empty_state)
     = Inl RateLimited"
    using getCalories_outcomes[of "reject (Some 429)" usda 0 "''pizza''" empty_state no_match 2]
    by simp
  have d: "message (NotFound ''a'') \<noteq> message (CaloriesUnavailable ''a'')"
    using getCalories_outcomes[of "serve []" usda 0 "''xyznonfood''" empty_state no_match 2]
    by blast
  have "findBestMatch no_match [biryani] ''chicken biryani'' = Some biryani"
    by (simp add: findBestMatch_def)
  moreover have "extractCalories biryani = Some 280"
    by (simp add: eval_defs)
  ultimately have e: "fst (getCalories (serve [biryani]) no_match usda 0 ''chicken biryani'' 2 empty_state) =
     Inr \<lparr>dish_name = ''chicken biryani'', servings = 2, calories_per_serving = 280,
          total_calories = Finite 560, source = ''USDA FoodData Central'',
          matched_food = ''Chicken biryani, with rice'', food_id = 123456\<rparr>"
    using getCalories_outcomes[of "serve [biryani]" usda 0 "''chicken biryani''" empty_state no_match 2]
    by (simp add: search_empty compute_280 biryani_def)
  show ?thesis using a b c d e by simp
qed

text \<open>
  C7. Consider calls of \<open>searchFoods\<close> with one query and page size whose times all
  lie in a window of \<open>stdTTL\<close> = 3600 seconds that starts at the first call. When
  every request that is made is answered with data, the source is contacted at most
  once, whatever the cache held before. When the first call misses the cache and the
  source answers it with the list \<open>fs\<close>, empty or not, then the first call returns
  \<open>fs\<close> and leaves \<open>fs\<close> in the cache under its key with the time of the call; the
  source is contacted exactly once, by the first call, and every call returns \<open>fs\<close>,
  whatever the source would answer later.
\<close>

theorem searchFoods_cached_at_most_once:
  assumes window: "\<forall>t \<in> set (t0 # ts). t0 \<le> t \<and> t \<le> t0 + stdTTL"
  shows
    "((\<forall>t \<in> set (t0 # ts). \<exists>b. ax t (search_request svc q p) = Resolved b \<and> b \<noteq> NoData) \<longrightarrow>
        length (requests (snd (searchFoods_repeat ax svc q p (t0 # ts) s)))
          \<le> Suc (length (requests s))) \<and>
     (\<forall>fs. cache_get (cache s) t0 (cacheKey q p) = None \<and>
          ax t0 (search_request svc q p) = Resolved (Data (Some fs)) \<longrightarrow>
        fst (searchFoods ax svc t0 q p s) = Inr fs \<and>
        cache (snd (searchFoods ax svc t0 q p s)) (cacheKey q p) =
          Some \<lparr>ce_value = fs, ce_insertedAt = t0\<rparr> \<and>
        cache_get (cache (snd (searchFoods ax svc t0 q p s))) t0 (cacheKey q p) = Some fs \<and>
        fst (searchFoods_repeat ax svc q p (t0 # ts) s) =
          replicate (Suc (length ts)) (Inr fs) \<and>
        requests (snd (searchFoods_repeat ax svc q p (t0 # ts) s)) =
          requests s @ [search_request svc q p])"
proof -
  have a: "length (requests (snd (searchFoods_repeat ax svc q p (t0 # ts) s)))
           \<le> Suc (length (requests s))"
    if ok: "\<forall>t \<in> set (t0 # ts). \<exists>b. ax t (search_request svc q p) = Resolved b \<and> b \<noteq> NoData"
    using searchFoods_repeat_at_most_once[of "t0 # ts" t0 ax svc q p s] window ok by blast
  have b: "fst (searchFoods ax svc t0 q p s) = Inr fs \<and>
        cache (snd (searchFoods ax svc t0 q p s)) (cacheKey q p) =
          Some \<lparr>ce_value = fs, ce_insertedAt = t0\<rparr> \<and>
        cache_get (cache (snd (searchFoods ax svc t0 q p s))) t0 (cacheKey q p) = Some fs \<and>
        fst (searchFoods_repeat ax svc q p (t0 # ts) s) =
          replicate (Suc (length ts)) (Inr fs) \<and>
        requests (snd (searchFoods_repeat ax svc q p (t0 # ts) s)) =
          requests s @ [search_request svc q p]"
    if miss: "cache_get (cache s) t0 (cacheKey q p) = None"
      and d: "ax t0 (search_request svc q p) = Resolved (Data (Some fs))" for fs
  proof -
    have w: "\<forall>t \<in> set ts. t \<le> t0 + stdTTL" using window by auto
    have f: "response_foods (Data (Some fs)) = Some fs" by simp
    have "searchFoods_repeat ax svc q p (t0 # ts) s =
       (replicate (Suc (length ts)) (Inr fs), snd (searchFoods ax svc t0 q p s))"
      using searchFoods_repeat_after_miss[of s t0 q p ax svc "Data (Some fs)" fs ts] miss d w f
      by blast
    moreover have "searchFoods ax svc t0 q p s =
       (Inr fs,
        \<lparr>cache = (cache s)(cacheKey q p \<mapsto> \<lparr>ce_value = fs, ce_insertedAt = t0\<rparr>),
         requests = requests s @ [search_request svc q p]\<rparr>)"
      using searchFoods_miss_stores[of s t0 q p ax svc "Data (Some fs)" fs] miss d f by blast
    ultimately show ?thesis
      by (simp add: cache_get_def)
  qed
  show ?thesis using a b by blast
qed

theorem searchFoods_cached_at_most_once_witness:
  "(3600::nat) \<le> 0 + stdTTL \<and>
   cache_get (cache empty_state) 0 (cacheKey ''biryani'' 25) = None \<and>
   once [biryani, water] 0 (search_request usda ''biryani'' 25) =
     Resolved (Data (Some [biryani, water])) \<and>
   once [biryani, water] 10 (search_request usda ''biryani'' 25) = Rejected (Some 500) \<and>
   fst (searchFoods_repeat (once [biryani, water]) usda ''biryani'' 25 [0, 10, 3600] empty_state) =
     [Inr [biryani, water], Inr [biryani, water], Inr [biryani, water]] \<and>
   requests (snd (searchFoods_repeat (once [biryani, water]) usda ''biryani'' 25 [0, 10, 3600]
       empty_state)) = [search_request usda ''biryani'' 25] \<and>
   fst (searchFoods_repeat (serve []) usda ''xyznonfood'' 25 [0, 10, 3600] empty_state) =
     [Inr [], Inr [], Inr []] \<and>
   requests (snd (searchFoods_repeat (serve []) usda ''xyznonfood'' 25 [0, 10, 3600]
       empty_state)) = [search_request usda ''xyznonfood'' 25] \<and>
   length (requests (snd (searchFoods_repeat (serve [biryani]) usda ''biryani'' 25 [0, 10, 3600]
      (snd (searchFoods (serve []) usda 0 ''xyznonfood'' 25 empty_state))))) \<le> 2"
proof -
  have h1: "\<forall>t \<in> set [0, 10, 3600]. (0::nat) \<le> t \<and> t \<le> 0 + stdTTL"
    by (simp add: stdTTL_def)
  have h2: "\<forall>t \<in> set [0, 10, 3600].
      \<exists>b. serve fs t (search_request usda qq 25) = Resolved b \<and> b \<noteq> NoData" for fs qq
    by (simp add: serve_def)
  have h3: "cache_get (cache empty_state) 0 k = None" for k
    by (simp add: cache_get_def empty_state_def)
  have h4: "once [biryani, water] 0 (search_request usda ''biryani'' 25) =
     Resolved (Data (Some [biryani, water]))"
    by (simp add: once_def)
  have h5: "once [biryani, water] 10 (search_request usda ''biryani'' 25) = Rejected (Some 500)"
    by (simp add: once_def)
  have h6: "(3600::nat) \<le> 0 + stdTTL"
    by (simp add: stdTTL_def)
  have h7: "serve [] 0 (search_request usda ''xyznonfood'' 25) = Resolved (Data (Some []))"
    by (simp add: serve_def)
  have one: "fst (searchFoods_repeat (once [biryani, water]) usda ''biryani'' 25 [0, 10, 3600]
        empty_state) = [Inr [biryani, water], Inr [biryani, water], Inr [biryani, water]] \<and>
     requests (snd (searchFoods_repeat (once [biryani, water]) usda ''biryani'' 25 [0, 10, 3600]
        empty_state)) = [search_request usda ''biryani'' 25]"
    using searchFoods_cached_at_most_once[of 0 "[10, 3600]" "once [biryani, water]" usda
        "''biryani''" 25 empty_state] h1 h3 h4
    by (auto simp: empty_state_def numeral_3_eq_3)
  have two: "fst (searchFoods_repeat (serve []) usda ''xyznonfood'' 25 [0, 10, 3600] empty_state) =
       [Inr [], Inr [], Inr []] \<and>
     requests (snd (searchFoods_repeat (serve []) usda ''xyznonfood'' 25 [0, 10, 3600]
       empty_state)) = [search_request usda ''xyznonfood'' 25]"
    using searchFoods_cached_at_most_once[of 0 "[10, 3600]" "serve []" usda "''xyznonfood''" 25
        empty_state] h1 h3 h7
    by (auto simp: empty_state_def numeral_3_eq_3)
  have three: "length (requests (snd (searchFoods_repeat (serve [biryani]) usda ''biryani'' 25
      [0, 10, 3600] (snd (searchFoods (serve []) usda 0 ''xyznonfood'' 25 empty_state))))) \<le> 2"
    using searchFoods_cached_at_most_once[of 0 "[10, 3600]" "serve [biryani]" usda "''biryani''"
        25 "snd (searchFoods (serve []) usda 0 ''xyznonfood'' 25 empty_state)"]
      h1 h2[of "[biryani]" "''biryani''"]
    by (simp add: search_empty)
  show ?thesis using one two three h3 h4 h5 h6 by simp
qed

text \<open>
  C8. \<open>extractCalories\<close> is to return the value of the first entry with identifier
  1008 or with "energy" in its name. At the food \<open>water\<close>, whose first such entry has
  the value 0, it returns nothing instead of 0.
\<close>

theorem extractCalories_zero_energy:
  "find is_energy (the (foodNutrients water)) =
     Some \<lparr>nutrientId = 1008, nutrientName = Some ''Energy'', nutrient_value = Some 0\<rparr> \<and>
   extractCalories water = None"
  by (simp add: eval_defs)

text \<open>
  C10. When the first qualifying energy entry of a food has the value 0 or no value,
  \<open>extractCalories\<close> returns nothing, and a lookup whose matched food is this one fails
  with the calories-unavailable error.
\<close>

theorem extractCalories_falsy_value_unavailable:
  assumes "foodNutrients fd = Some ns" and "find is_energy ns = Some e"
    and "nutrient_value e = None \<or> nutrient_value e = Some 0"
  shows "extractCalories fd = None \<and>
    (\<forall>ax svc now d s fz n foods.
        fst (searchFoods ax svc now d 25 s) = Inr foods \<and> findBestMatch fz foods d = Some fd \<longrightarrow>
        fst (getCalories ax fz svc now d n s) = Inl (CaloriesUnavailable d))"
  using extractCalories_falsy[OF assms] getCalories_CaloriesUnavailable by blast


theorem extractCalories_falsy_value_unavailable_witness:
  "foodNutrients water =
     Some [\<lparr>nutrientId = 1008, nutrientName = Some ''Energy'', nutrient_value = Some 0\<rparr>] \<and>
   find is_energy [\<lparr>nutrientId = 1008, nutrientName = Some ''Energy'', nutrient_value = Some 0\<rparr>] =
     Some \<lparr>nutrientId = 1008, nutrientName = Some ''Energy'', nutrient_value = Some 0\<rparr> \<and>
   extractCalories water = None \<and>
   fst (getCalories (serve [water]) no_match usda 0 ''water'' 1 empty_state) =
     Inl (CaloriesUnavailable ''water'')"
proof -
  let ?e = "\<lparr>nutrientId = 1008, nutrientName = Some ''Energy'', nutrient_value = Some (0::rat)\<rparr>"
  have h1: "foodNutrients water = Some [?e]" by (simp add: water_def)
  have h2: "find is_energy [?e] = Some ?e" by (simp add: is_energy_def)
  have h3: "nutrient_value ?e = None \<or> nutrient_value ?e = Some 0" by simp
  have h4: "fst (searchFoods (serve [water]) usda 0 ''water'' 25 empty_state) = Inr [water]"
    by (simp add: search_empty)
  have h5: "findBestMatch no_match [water] ''water'' = Some water"
    by (simp add: findBestMatch_def)
  show ?thesis using extractCalories_falsy_value_unavailable[OF h1 h2 h3] h1 h2 h4 h5 by blast
qed

end
